theory Spec2Isabelle
  imports Main "HOL-Library.Multiset"
begin

section \<open>Byte buffers\<close>

text \<open>
  A Go byte slice and a Go string are both sequences of bytes; both are modelled as
  \<open>char list\<close> (an Isabelle \<open>char\<close> is one byte).  A \<open>bytes.Buffer\<close> whose read
  offset is zero (nothing has been read from it, as for the two buffers a command writes
  to) is the list of its bytes.
\<close>

type_synonym bytes = "char list"

definition NL :: char where
  "NL = CHR 0x0A"

definition CRET :: char where
  "CRET = CHR 0x0D"

definition MaxStderrBytes :: int where
  "MaxStderrBytes = 512"

text \<open>\<open>bytes.IndexByte\<close>: the index of the first instance of the byte, or \<open>-1\<close>.\<close>

fun IndexByte :: "bytes \<Rightarrow> char \<Rightarrow> int" where
  "IndexByte [] c = - 1"
| "IndexByte (b # bs) c =
     (if b = c then 0
      else (let i = IndexByte bs c in if i < 0 then - 1 else i + 1))"

definition Buffer_Len :: "bytes \<Rightarrow> int" where
  "Buffer_Len b = int (length b)"

text \<open>
  \<open>Buffer.Truncate(n)\<close> keeps the first \<open>n\<close> unread bytes and panics when \<open>n\<close> is
  negative or larger than the length; the panic is the value \<open>None\<close>.
\<close>

definition Buffer_Truncate :: "bytes \<Rightarrow> int \<Rightarrow> bytes option" where
  "Buffer_Truncate b n =
     (if n < 0 \<or> n > Buffer_Len b then None else Some (take (nat n) b))"

definition Buffer_WriteString :: "bytes \<Rightarrow> string \<Rightarrow> bytes" where
  "Buffer_WriteString b s = b @ s"

section \<open>The data model\<close>

datatype error = Error string

text \<open>
  \<open>fmt\<close>'s rendering of an error value under the verb \<open>%s\<close>; a nil error prints as
  \<open>%!s(<nil>)\<close>.
\<close>

definition error_string :: "error option \<Rightarrow> string" where
  "error_string err = (case err of None \<Rightarrow> ''%!s(<nil>)'' | Some (Error m) \<Rightarrow> m)"

text \<open>
  A field value of a metric is a Go \<open>interface{}\<close>; the code only asks whether it is a
  \<open>float64\<close>.  The type of floating-point numbers is the parameter \<open>'f\<close>.
\<close>

datatype 'f field_value =
    FloatValue 'f
  | IntValue int
  | UintValue nat
  | StringValue string
  | BoolValue bool

record 'f Field =
  Key :: string
  Value :: "'f field_value"

text \<open>
  Modelled from the spec: \<open>telegraf.Metric\<close> is declared outside this file.  A metric is
  an opaque structured record of fields and tags; the tags have unique keys, so they are
  a map, and \<open>AddTag\<close> sets the tag of the given key to the given value.
\<close>

record 'f Metric =
  Name :: string
  Tags :: "string \<rightharpoonup> string"
  Fields :: "'f Field list"

definition FieldList :: "'f Metric \<Rightarrow> 'f Field list" where
  "FieldList m = Fields m"

definition AddTag :: "'f Metric \<Rightarrow> string \<Rightarrow> string \<Rightarrow> 'f Metric" where
  "AddTag m key val = m\<lparr>Tags := (Tags m)(key \<mapsto> val)\<rparr>"

text \<open>
  What a collection cycle writes: the metrics and the errors handed to the sink
  (\<open>telegraf.Accumulator\<close>, with \<open>AddMetric\<close> and \<open>AddError\<close>), in the order of the calls,
  and the lines written to the plugin's logger.
\<close>

record 'f Accumulator =
  acc_metrics :: "'f Metric list"
  acc_errors :: "error list"
  log_errors :: "string list"

definition AddMetric :: "'f Accumulator \<Rightarrow> 'f Metric \<Rightarrow> 'f Accumulator" where
  "AddMetric acc m = acc\<lparr>acc_metrics := acc_metrics acc @ [m]\<rparr>"

definition AddError :: "'f Accumulator \<Rightarrow> error \<Rightarrow> 'f Accumulator" where
  "AddError acc err = acc\<lparr>acc_errors := acc_errors acc @ [err]\<rparr>"

definition Log_Errorf :: "'f Accumulator \<Rightarrow> string \<Rightarrow> 'f Accumulator" where
  "Log_Errorf acc line = acc\<lparr>log_errors := log_errors acc @ [line]\<rparr>"

text \<open>
  The parser capability (\<open>parsers.Parser\<close>): its \<open>Parse\<close> method, and whether its dynamic
  type is \<open>*nagios.NagiosParser\<close>.
\<close>

record 'f Parser =
  Parse :: "bytes \<Rightarrow> 'f Metric list \<times> error option"
  isNagios :: bool

text \<open>
  The struct \<open>Exec2\<close> (exec.go, lines 51 to 70).  A Go map is a partial function; the nil
  map reads as the empty one.  The lock \<open>mutext\<close> has no content of its own.  A
  \<open>Duration\<close> is an integer.
\<close>

record 'f Exec2 =
  Commands :: "string list"
  Command :: string
  Pattern :: string
  Ports :: string
  cmds :: "string \<rightharpoonup> string"
  addedPattern :: bool
  ExCommands :: "string list"
  ex_cmds :: "string \<rightharpoonup> string"
  Timeout :: int
  parser :: "'f Parser"
  runner :: "string \<Rightarrow> int \<Rightarrow> bytes \<times> bytes \<times> error option"

text \<open>
  The functions of other packages that the plugin calls, taken as parameters:
  \<open>filepath.Glob\<close>, \<open>fmt.Sprintf\<close> with a format and one string operand,
  \<open>strconv.FormatFloat(v, 'f', -1, 64)\<close> and \<open>nagios.TryAddState\<close>.
\<close>

record 'f Lib =
  Glob :: "string \<Rightarrow> string list \<times> error option"
  Sprintf :: "string \<Rightarrow> string \<Rightarrow> string"
  FormatFloat :: "'f \<Rightarrow> string"
  TryAddState :: "error option \<Rightarrow> 'f Metric list \<Rightarrow> 'f Metric list \<times> error option"

section \<open>The output sanitizer\<close>

text \<open>
  \<open>truncate\<close> (exec.go, lines 114 to 132).  The two local variables \<open>buf\<close> and
  \<open>didTruncate\<close> are threaded through the three statements.
\<close>

definition truncate_cap :: "bytes \<Rightarrow> (bytes \<times> bool) option" where
  "truncate_cap buf =
     (if Buffer_Len buf > MaxStderrBytes
      then (case Buffer_Truncate buf MaxStderrBytes of
              None \<Rightarrow> None
            | Some b \<Rightarrow> Some (b, True))
      else Some (buf, False))"

definition truncate_line :: "bytes \<times> bool \<Rightarrow> (bytes \<times> bool) option" where
  "truncate_line st =
     (case st of (buf, didTruncate) \<Rightarrow>
        (let i = IndexByte buf NL in
         if i > 0
         then (let didTruncate' = (if i < Buffer_Len buf - 1 then True else didTruncate) in
               case Buffer_Truncate buf i of
                 None \<Rightarrow> None
               | Some b \<Rightarrow> Some (b, didTruncate'))
         else Some (buf, didTruncate)))"

definition truncate_mark :: "bytes \<times> bool \<Rightarrow> bytes" where
  "truncate_mark st =
     (case st of (buf, didTruncate) \<Rightarrow>
        if didTruncate then Buffer_WriteString buf ''...'' else buf)"

definition truncate :: "bytes \<Rightarrow> bytes option" where
  "truncate buf =
     (case truncate_cap buf of
        None \<Rightarrow> None
      | Some st1 \<Rightarrow>
          (case truncate_line st1 of
             None \<Rightarrow> None
           | Some st2 \<Rightarrow> Some (truncate_mark st2)))"

text \<open>
  \<open>Buffer.ReadBytes(delim)\<close> of the Go library, on a buffer given by its unread bytes:
  it reads up to and including the first \<open>delim\<close>, or everything that is left together
  with the error \<open>io.EOF\<close> when there is none.  The result is the line (\<open>None\<close> for the
  nil slice that Go returns when nothing was read), whether the error is \<open>io.EOF\<close>,
  and the bytes left unread.
\<close>

definition Buffer_readSlice :: "bytes \<Rightarrow> char \<Rightarrow> bytes \<times> bool \<times> bytes" where
  "Buffer_readSlice b delim =
     (let i = IndexByte b delim in
      if i < 0 then (b, True, [])
      else (take (nat (i + 1)) b, False, drop (nat (i + 1)) b))"

definition Buffer_ReadBytes :: "bytes \<Rightarrow> char \<Rightarrow> bytes option \<times> bool \<times> bytes" where
  "Buffer_ReadBytes b delim =
     (case Buffer_readSlice b delim of
        (slice, eof, rest) \<Rightarrow> (if slice = [] then None else Some slice, eof, rest))"

definition slice_len :: "bytes option \<Rightarrow> int" where
  "slice_len byt = (case byt of None \<Rightarrow> 0 | Some l \<Rightarrow> int (length l))"

text \<open>
  The loop of \<open>removeCarriageReturns\<close> (exec.go, lines 139 to 153): \<open>b\<close> is the buffer
  being read and \<open>buf\<close> the buffer being written.
\<close>

function removeCarriageReturns_loop :: "bytes \<Rightarrow> bytes \<Rightarrow> bytes" where
  "removeCarriageReturns_loop b buf =
     (let r = Buffer_ReadBytes b CRET;
          byt = fst r;
          eof = fst (snd r);
          end = (if \<not> eof then slice_len byt - 1 else slice_len byt)
      in (case byt of
            None \<Rightarrow> buf
          | Some l \<Rightarrow>
              (if eof then buf @ take (nat end) l
               else removeCarriageReturns_loop (snd (snd r)) (buf @ take (nat end) l))))"
  by pat_completeness auto
termination
proof (relation "measure (\<lambda>(b, buf). length b)")
  show "wf (measure (\<lambda>(b, buf). length b))"
    by simp
next
  fix b buf :: bytes and r byt eof e l
  assume r: "r = Buffer_ReadBytes b CRET" and eof: "eof = fst (snd r)" and ne: "\<not> eof"
  from r eof ne have "0 \<le> IndexByte b CRET"
    by (auto simp: Buffer_ReadBytes_def Buffer_readSlice_def Let_def split: if_splits)
  with r have "length (snd (snd r)) < length b"
    by (cases b) (auto simp: Buffer_ReadBytes_def Buffer_readSlice_def Let_def nat_add_distrib
        split: if_splits)
  then show "((snd (snd r), buf @ take (nat e) l), b, buf) \<in> measure (\<lambda>(b, buf). length b)"
    by simp
qed

declare removeCarriageReturns_loop.simps [simp del]

text \<open>
  \<open>removeCarriageReturns\<close> (exec.go, lines 136 to 158); \<open>goos\<close> is \<open>runtime.GOOS\<close>.
\<close>

definition removeCarriageReturns :: "string \<Rightarrow> bytes \<Rightarrow> bytes" where
  "removeCarriageReturns goos b =
     (if goos = ''windows'' then removeCarriageReturns_loop b [] else b)"

section \<open>The process runner\<close>

text \<open>
  \<open>CommandRunner.Run\<close> (exec.go, lines 85 to 112).  The word splitter
  \<open>shellquote.Split\<close> and the process launch \<open>internal.RunTimeout\<close> (which fills the two
  buffers and returns the run error) are collaborators outside this file and are taken
  as parameters.  The result is \<open>None\<close> when \<open>truncate\<close> panics.
\<close>

definition CommandRunner_Run ::
  "string \<Rightarrow> (string \<Rightarrow> string list \<times> error option) \<Rightarrow>
   (string list \<Rightarrow> int \<Rightarrow> bytes \<times> bytes \<times> error option) \<Rightarrow>
   string \<Rightarrow> int \<Rightarrow> (bytes \<times> bytes \<times> error option) option" where
  "CommandRunner_Run goos shellquote_Split RunTimeout command timeout =
     (case shellquote_Split command of
        (split_cmd, err) \<Rightarrow>
          if err \<noteq> None \<or> length split_cmd = 0
          then Some ([], [], Some (Error (''exec2: unable to parse command, '' @ error_string err)))
          else (case RunTimeout split_cmd timeout of
                  (out0, stderr0, runErr) \<Rightarrow>
                    (let out = removeCarriageReturns goos out0 in
                     if Buffer_Len stderr0 > 0
                     then (case truncate (removeCarriageReturns goos stderr0) of
                             None \<Rightarrow> None
                           | Some stderr \<Rightarrow> Some (out, stderr, runErr))
                     else Some (out, stderr0, runErr))))"

section \<open>String functions\<close>

text \<open>
  \<open>strings.SplitN(s, sep, 2)\<close>, \<open>strings.Split(s, sep)\<close> and \<open>strings.Join(elems, sep)\<close>
  of the Go library; the separator of the two splitters is one byte at both call sites.
  \<open>SplitN\<close> with the limit 2 cuts at the first separator only.
\<close>

definition SplitN2 :: "string \<Rightarrow> char \<Rightarrow> string list" where
  "SplitN2 s sep =
     (let m = IndexByte s sep in
      if m < 0 then [s] else [take (nat m) s, drop (nat (m + 1)) s])"

fun Split_from :: "char \<Rightarrow> string \<Rightarrow> string \<Rightarrow> string list" where
  "Split_from sep cur [] = [cur]"
| "Split_from sep cur (c # cs) =
     (if c = sep then cur # Split_from sep [] cs else Split_from sep (cur @ [c]) cs)"

definition Split :: "string \<Rightarrow> char \<Rightarrow> string list" where
  "Split s sep = Split_from sep [] s"

fun Join :: "string list \<Rightarrow> string \<Rightarrow> string" where
  "Join [] sep = []"
| "Join [x] sep = x"
| "Join (x # y # ys) sep = x @ sep @ Join (y # ys) sep"

section \<open>The plugin\<close>

subsection \<open>Metric tagging\<close>

text \<open>\<open>addExMetric\<close> (exec.go, lines 200 to 208) and \<open>addMetric\<close> (lines 189 to 198).\<close>

definition addExMetric :: "'f Exec2 \<Rightarrow> string \<Rightarrow> 'f Metric \<Rightarrow> 'f Metric" where
  "addExMetric e command metric =
     (case ex_cmds e command of
        Some port \<Rightarrow> AddTag metric ''port'' port
      | None \<Rightarrow> metric)"

definition addMetric ::
  "'f Exec2 \<Rightarrow> string \<Rightarrow> 'f Metric \<Rightarrow> 'f Accumulator \<Rightarrow> 'f Accumulator" where
  "addMetric e command metric acc =
     (let metric1 = (case cmds e command of
                       Some port \<Rightarrow> AddTag metric ''port'' port
                     | None \<Rightarrow> metric);
          metric2 = addExMetric e command metric1
      in AddMetric acc metric2)"

subsection \<open>Running one command\<close>

text \<open>
  \<open>ProcessCommand\<close> (exec.go, lines 160 to 187).  The wait group is bookkeeping of the
  caller's join and is not part of the result.
\<close>

definition ProcessCommand ::
  "'f Lib \<Rightarrow> 'f Exec2 \<Rightarrow> string \<Rightarrow> 'f Accumulator \<Rightarrow> 'f Accumulator" where
  "ProcessCommand lib e command acc =
     (case runner e command (Timeout e) of
        (out, errbuf, runErr) \<Rightarrow>
          if \<not> isNagios (parser e) \<and> runErr \<noteq> None
          then AddError acc
                 (Error (''exec2: '' @ error_string runErr @ '' for command '' @ [CHR 0x27] @
                         command @ [CHR 0x27] @ '': '' @ errbuf))
          else (case Parse (parser e) out of
                  (metrics, Some err) \<Rightarrow> AddError acc err
                | (metrics, None) \<Rightarrow>
                    (if isNagios (parser e)
                     then (case TryAddState lib runErr metrics of
                             (metrics', Some err) \<Rightarrow>
                               fold (\<lambda>m a. addMetric e command m a) metrics'
                                 (Log_Errorf acc
                                    (''Failed to add nagios state: '' @ error_string (Some err)))
                           | (metrics', None) \<Rightarrow>
                               fold (\<lambda>m a. addMetric e command m a) metrics' acc)
                     else fold (\<lambda>m a. addMetric e command m a) metrics acc)))"

subsection \<open>Command resolution\<close>

text \<open>
  The body of the loop over the command patterns, which \<open>Gather\<close> (exec.go, lines 232 to
  260) and \<open>readExCommandsLock\<close> (lines 281 to 309) contain word for word: the state is the
  slice \<open>commands\<close> built so far and the sink.
\<close>

definition append_matches :: "string list \<Rightarrow> string list \<Rightarrow> string list \<Rightarrow> string list" where
  "append_matches cmdAndArgs matches commands =
     fold (\<lambda>match cs.
             if length cmdAndArgs = 1 then cs @ [match]
             else cs @ [Join [match, cmdAndArgs ! 1] '' ''])
       matches commands"

definition resolve_pattern ::
  "(string \<Rightarrow> string list \<times> error option) \<Rightarrow> string \<Rightarrow>
   string list \<times> 'f Accumulator \<Rightarrow> string list \<times> 'f Accumulator" where
  "resolve_pattern glob pattern st =
     (case st of (commands, acc) \<Rightarrow>
        (let cmdAndArgs = SplitN2 pattern (CHR '' '') in
         if length cmdAndArgs = 0 then (commands, acc)
         else (case glob (cmdAndArgs ! 0) of
                 (matches, Some err) \<Rightarrow> (commands, AddError acc err)
               | (matches, None) \<Rightarrow>
                   if length matches = 0 then (commands @ [pattern], acc)
                   else (append_matches cmdAndArgs matches commands, acc))))"

definition resolve_patterns ::
  "(string \<Rightarrow> string list \<times> error option) \<Rightarrow> string list \<Rightarrow>
   string list \<times> 'f Accumulator \<Rightarrow> string list \<times> 'f Accumulator" where
  "resolve_patterns glob patterns st = fold (resolve_pattern glob) patterns st"

text \<open>\<open>readExCommandsLock\<close> (exec.go, lines 276 to 311).\<close>

definition readExCommandsLock ::
  "'f Lib \<Rightarrow> 'f Exec2 \<Rightarrow> 'f Accumulator \<Rightarrow> string list \<times> 'f Accumulator" where
  "readExCommandsLock lib e acc = resolve_patterns (Glob lib) (ExCommands e) ([], acc)"

subsection \<open>The collection cycle\<close>

text \<open>
  \<open>Gather\<close> starts one goroutine per resolved command (exec.go, lines 264 to 270) and
  the goroutines call the sink concurrently.  A goroutine is therefore given by the
  sequence of its calls to the sink and to the logger: \<open>ProcessCommand_calls\<close> is
  \<open>ProcessCommand\<close> (exec.go, lines 160 to 187) with every call recorded instead of made,
  and \<open>do_call\<close> makes one recorded call.
\<close>

datatype 'f sink_call =
    Call_AddError error
  | Call_addMetric string "'f Metric"
  | Call_Log_Errorf string

fun do_call :: "'f Exec2 \<Rightarrow> 'f sink_call \<Rightarrow> 'f Accumulator \<Rightarrow> 'f Accumulator" where
  "do_call e (Call_AddError err) acc = AddError acc err"
| "do_call e (Call_addMetric command m) acc = addMetric e command m acc"
| "do_call e (Call_Log_Errorf line) acc = Log_Errorf acc line"

definition ProcessCommand_calls :: "'f Lib \<Rightarrow> 'f Exec2 \<Rightarrow> string \<Rightarrow> 'f sink_call list" where
  "ProcessCommand_calls lib e command =
     (case runner e command (Timeout e) of
        (out, errbuf, runErr) \<Rightarrow>
          if \<not> isNagios (parser e) \<and> runErr \<noteq> None
          then [Call_AddError
                  (Error (''exec2: '' @ error_string runErr @ '' for command '' @ [CHR 0x27] @
                          command @ [CHR 0x27] @ '': '' @ errbuf))]
          else (case Parse (parser e) out of
                  (metrics, Some err) \<Rightarrow> [Call_AddError err]
                | (metrics, None) \<Rightarrow>
                    (if isNagios (parser e)
                     then (case TryAddState lib runErr metrics of
                             (metrics', Some err) \<Rightarrow>
                               Call_Log_Errorf
                                 (''Failed to add nagios state: '' @ error_string (Some err)) #
                               map (Call_addMetric command) metrics'
                           | (metrics', None) \<Rightarrow> map (Call_addMetric command) metrics')
                     else map (Call_addMetric command) metrics)))"

text \<open>
  The scheduler.  The calls of the goroutines reach the sink in some interleaving that
  keeps the order of the calls of each goroutine; which one is not determined by the
  program.  The interleaving is chosen by a schedule, a parameter of \<open>Gather\<close>: each
  number of the schedule picks, among the goroutines that still have a call to make, the
  one that makes its next call; when the schedule is used up the remaining goroutines
  run to their end one after the other.  Every goroutine runs to its end under every
  schedule, as \<open>wg.Wait()\<close> (line 271) requires before \<open>Gather\<close> returns.
\<close>

fun interleave :: "nat list \<Rightarrow> 'c list list \<Rightarrow> 'c list" where
  "interleave [] queues = concat queues"
| "interleave (i # sched) queues =
     (let live = filter (\<lambda>q. q \<noteq> []) queues in
      if live = [] then []
      else (let k = i mod length live in
            hd (live ! k) # interleave sched (live[k := tl (live ! k)])))"

text \<open>
  The interleavings of the calls of the goroutines: at each step one goroutine that
  still has a call makes its next call.  Every interleaving is the result of a schedule
  (\<open>every_interleaving_scheduled\<close> below), so a statement about \<open>Gather\<close> for every
  schedule is a statement about every order in which the calls can reach the sink.
\<close>

inductive interleaving :: "'c list list \<Rightarrow> 'c list \<Rightarrow> bool" where
  finished: "concat queues = [] \<Longrightarrow> interleaving queues []"
| next_call: "k < length queues \<Longrightarrow> queues ! k = x # rest \<Longrightarrow>
     interleaving (queues[k := rest]) calls \<Longrightarrow> interleaving queues (x # calls)"

text \<open>
  \<open>Gather\<close> (exec.go, lines 222 to 273).  \<open>Gather_resolve\<close> is its first part (lines 225
  to 262): the legacy command is folded into the list, the static patterns are resolved,
  and the dynamic patterns are resolved by \<open>readExCommandsLock\<close>; its result is the
  plugin, the two slices \<open>commands\<close> and \<open>exCommands\<close>, and the sink.  \<open>Gather\<close> then runs
  one goroutine per command of the two slices and returns nil; its result is the plugin,
  the sink and the returned error.
\<close>

definition Gather_resolve ::
  "'f Lib \<Rightarrow> 'f Exec2 \<Rightarrow> 'f Accumulator \<Rightarrow>
   'f Exec2 \<times> string list \<times> string list \<times> 'f Accumulator" where
  "Gather_resolve lib e0 acc0 =
     (let e = (if Command e0 \<noteq> ''''
               then e0\<lparr>Commands := Commands e0 @ [Command e0], Command := ''''\<rparr>
               else e0) in
      case resolve_patterns (Glob lib) (Commands e) ([], acc0) of
        (commands, acc1) \<Rightarrow>
          (case readExCommandsLock lib e acc1 of
             (exCommands, acc2) \<Rightarrow> (e, commands, exCommands, acc2)))"

definition Gather ::
  "'f Lib \<Rightarrow> nat list \<Rightarrow> 'f Exec2 \<Rightarrow> 'f Accumulator \<Rightarrow>
   'f Exec2 \<times> 'f Accumulator \<times> error option" where
  "Gather lib sched e0 acc0 =
     (case Gather_resolve lib e0 acc0 of
        (e, commands, exCommands, acc2) \<Rightarrow>
          (let goroutines = map (ProcessCommand_calls lib e) commands @
                            map (ProcessCommand_calls lib e) exCommands;
               acc3 = fold (do_call e) (interleave sched goroutines) acc2
           in (e, acc3, None)))"

subsection \<open>Pattern commands\<close>

text \<open>\<open>addPatternCommands\<close> (exec.go, lines 314 to 327) and \<open>Init\<close> (lines 380 to 384).\<close>

definition addPatternCommands :: "'f Lib \<Rightarrow> 'f Exec2 \<Rightarrow> 'f Exec2" where
  "addPatternCommands lib e =
     (if Pattern e \<noteq> '''' \<and> Ports e \<noteq> '''' \<and> \<not> addedPattern e
      then (let ports = Split (Ports e) (CHR '','');
                e1 = e\<lparr>cmds := Map.empty\<rparr>
            in case fold (\<lambda>port (e', commands).
                            (let cmd = Sprintf lib (Pattern e') port
                             in (e'\<lparr>cmds := (cmds e')(cmd \<mapsto> port), addedPattern := True\<rparr>,
                                 commands @ [cmd])))
                      ports (e1, [])
               of (e2, commands) \<Rightarrow> e2\<lparr>Commands := Commands e2 @ commands\<rparr>)
      else e)"

definition Init :: "'f Lib \<Rightarrow> 'f Exec2 \<Rightarrow> 'f Exec2 \<times> error option" where
  "Init lib e = (addPatternCommands lib e, None)"

subsection \<open>The dynamic set updater\<close>

text \<open>
  \<open>Write\<close> (exec.go, lines 341 to 378).  The lines it prints to the standard output are
  diagnostics and are not part of the state.  \<open>Write_exPorts\<close> is the first loop (lines 345
  to 354), which collects the parameters.
\<close>

definition Write_exPorts :: "'f Lib \<Rightarrow> 'f Metric list \<Rightarrow> string list" where
  "Write_exPorts lib metrics =
     fold (\<lambda>m exPorts.
             fold (\<lambda>f exPorts'.
                     (case Value f of
                        FloatValue v \<Rightarrow> exPorts' @ [FormatFloat lib v]
                      | _ \<Rightarrow> exPorts'))
               (FieldList m) exPorts)
       metrics []"

definition Write :: "'f Lib \<Rightarrow> 'f Exec2 \<Rightarrow> 'f Metric list \<Rightarrow> 'f Exec2 \<times> error option" where
  "Write lib e metrics =
     (let exPorts = Write_exPorts lib metrics in
      if Pattern e \<noteq> '''' \<and> length exPorts > 0
      then (let e1 = e\<lparr>ExCommands := []\<rparr>;
                e2 = e1\<lparr>ex_cmds := Map.empty\<rparr>
            in case fold (\<lambda>port (e', commands).
                            (let cmd = Sprintf lib (Pattern e') port
                             in (e'\<lparr>ex_cmds := (ex_cmds e')(cmd \<mapsto> port)\<rparr>, commands @ [cmd])))
                      exPorts (e2, [])
               of (e3, commands) \<Rightarrow> (e3\<lparr>ExCommands := ExCommands e3 @ commands\<rparr>, None))
      else (e, None))"

text \<open>
  The parameters of an update batch in the words of the specification: every
  floating-point field value across all metrics, in metric and then field order, each
  formatted as a string.  \<open>Write_exPorts\<close> is compared with it below.
\<close>

definition spec_parameters :: "'f Lib \<Rightarrow> 'f Metric list \<Rightarrow> string list" where
  "spec_parameters lib metrics =
     concat (map (\<lambda>m. concat (map (\<lambda>f. (case Value f of
                                             FloatValue v \<Rightarrow> [FormatFloat lib v]
                                           | _ \<Rightarrow> []))
                                  (FieldList m)))
               metrics)"

text \<open>
  The first token of a command pattern in the words of the specification: the text
  before the first whitespace character (space, tab, line feed, vertical tab, form feed
  or carriage return).  The code cuts at the first space only; the two are compared
  below.
\<close>

definition TAB :: char where
  "TAB = CHR 0x09"

definition is_whitespace :: "char \<Rightarrow> bool" where
  "is_whitespace c = (c \<in> {CHR '' '', TAB, NL, CHR 0x0B, CHR 0x0C, CRET})"

definition whitespace_token :: "string \<Rightarrow> string" where
  "whitespace_token pattern = takeWhile (\<lambda>c. \<not> is_whitespace c) pattern"

text \<open>
  The commands that a list of patterns resolves to, stated apart from the loop (section
  4.2 of the specification, with the token cut at the first space): a pattern whose
  token \<open>filepath.Glob\<close> rejects gives none, a pattern whose token has no match gives
  itself, and a pattern whose token has matches gives one command per match.
\<close>

definition resolved_commands ::
  "(string \<Rightarrow> string list \<times> error option) \<Rightarrow> string list \<Rightarrow> string list" where
  "resolved_commands glob patterns =
     concat (map (\<lambda>pattern.
                    (case glob (takeWhile (\<lambda>c. c \<noteq> CHR '' '') pattern) of
                       (matches, Some err) \<Rightarrow> []
                     | (matches, None) \<Rightarrow>
                         if matches = [] then [pattern]
                         else map (\<lambda>match.
                                    if CHR '' '' \<in> set pattern
                                    then match @ '' '' @
                                         drop (Suc (length (takeWhile (\<lambda>c. c \<noteq> CHR '' '')
                                                              pattern))) pattern
                                    else match) matches))
               patterns)"




section \<open>Concrete collaborators for the examples\<close>

text \<open>
  \<open>fmt.Sprintf(format, a)\<close> with one string operand, for the formats whose directives
  are \<open>%s\<close>, \<open>%v\<close> and \<open>%%\<close> only: the first \<open>%s\<close> or \<open>%v\<close> prints the operand, a later
  one prints that the operand is missing, and an operand that no directive used is
  reported at the end.  Any other directive is outside this model (\<open>None\<close>).  The flag
  says whether the operand has been used.
\<close>

fun Sprintf_from :: "bool \<Rightarrow> string \<Rightarrow> string \<Rightarrow> string option" where
  "Sprintf_from used [] a = Some (if used then [] else ''%!(EXTRA string='' @ a @ '')'')"
| "Sprintf_from used (c # rest) a =
     (if c \<noteq> CHR ''%'' then map_option ((#) c) (Sprintf_from used rest a)
      else (case rest of
              [] \<Rightarrow> None
            | v # rest' \<Rightarrow>
                if v = CHR ''%'' then map_option ((#) v) (Sprintf_from used rest' a)
                else if v = CHR ''s'' \<or> v = CHR ''v''
                then map_option ((@) (if used then ''%!'' @ [v] @ ''(MISSING)'' else a))
                       (Sprintf_from True rest' a)
                else None))"

text \<open>
  A total function that agrees with \<open>fmt.Sprintf\<close> on the formats of the model; outside
  them its value (the format) is a placeholder.
\<close>

definition Sprintf_model :: "string \<Rightarrow> string \<Rightarrow> string" where
  "Sprintf_model format a =
     (case Sprintf_from False format a of Some r \<Rightarrow> r | None \<Rightarrow> format)"

text \<open>
  \<open>strconv.FormatFloat(v, 'f', -1, 64)\<close> at a \<open>float64\<close> that holds an integer of
  magnitude below \<open>2^53\<close> (given here by that integer): its decimal digits.
\<close>

fun decimal :: "nat \<Rightarrow> string" where
  "decimal n =
     (if n < 10 then [''0123456789'' ! n]
      else decimal (n div 10) @ [''0123456789'' ! (n mod 10)])"

declare decimal.simps [simp del]

definition FormatFloat_integral :: "int \<Rightarrow> string" where
  "FormatFloat_integral i = (if i < 0 then ''-'' @ decimal (nat (- i)) else decimal (nat i))"

text \<open>
  A file system with two collectors under \<open>/tmp\<close>, and a pattern that \<open>filepath.Glob\<close>
  rejects.
\<close>

definition example_Glob :: "string \<Rightarrow> string list \<times> error option" where
  "example_Glob pat =
     (if pat = ''/tmp/collect_*.sh'' then ([''/tmp/collect_a.sh'', ''/tmp/collect_b.sh''], None)
      else if pat = ''['' then ([], Some (Error ''syntax error in pattern''))
      else ([], None))"

definition example_lib :: "int Lib" where
  "example_lib =
     \<lparr>Glob = example_Glob, Sprintf = Sprintf_model, FormatFloat = FormatFloat_integral,
      TryAddState = (\<lambda>runErr metrics. (metrics, None))\<rparr>"

text \<open>
  A runner whose command \<open>fail\<close> exits with an error and whose other commands print
  their own name, and a parser that rejects the output \<open>garbage\<close> and otherwise returns
  one metric named after the output.
\<close>

definition example_runner :: "string \<Rightarrow> int \<Rightarrow> bytes \<times> bytes \<times> error option" where
  "example_runner command timeout =
     (if command = ''fail'' then ([], ''boom'', Some (Error ''exit status 1''))
      else (command, [], None))"

definition example_parser :: "int Parser" where
  "example_parser =
     \<lparr>Parse = (\<lambda>out. if out = ''garbage'' then ([], Some (Error ''cannot parse''))
                      else ([\<lparr>Name = out, Tags = Map.empty, Fields = []\<rparr>], None)),
      isNagios = False\<rparr>"

definition example_plugin :: "int Exec2" where
  "example_plugin =
     \<lparr>Commands = [], Command = '''', Pattern = '''', Ports = '''', cmds = Map.empty,
      addedPattern = False, ExCommands = [], ex_cmds = Map.empty, Timeout = 5000000000,
      parser = example_parser, runner = example_runner\<rparr>"

definition empty_acc :: "int Accumulator" where
  "empty_acc = \<lparr>acc_metrics = [], acc_errors = [], log_errors = []\<rparr>"

text \<open>
  An update batch of two metrics whose floating-point fields are 9090.0 and 9091.0, with
  a field of another type between them.
\<close>

definition example_batch :: "int Metric list" where
  "example_batch =
     [\<lparr>Name = ''listen'', Tags = Map.empty,
       Fields = [\<lparr>Key = ''port'', Value = FloatValue 9090\<rparr>,
                 \<lparr>Key = ''proto'', Value = StringValue ''tcp''\<rparr>]\<rparr>,
      \<lparr>Name = ''listen'', Tags = Map.empty,
       Fields = [\<lparr>Key = ''port'', Value = FloatValue 9091\<rparr>]\<rparr>]"

text \<open>
  A file system as above in which the pattern \<open>/tmp/collect_?.sh\<close> has two matches, and
  in which \<open>filepath.Glob\<close> rejects the pattern \<open>mycmd<TAB>[\<close> for its unclosed bracket.
\<close>

definition tab_Glob :: "string \<Rightarrow> string list \<times> error option" where
  "tab_Glob pat =
     (if pat = ''/tmp/collect_?.sh'' then ([''/tmp/collect_a.sh'', ''/tmp/collect_b.sh''], None)
      else if pat = ''mycmd'' @ [TAB] @ ''[''
      then ([], Some (Error ''syntax error in pattern''))
      else ([], None))"

definition tab_lib :: "int Lib" where
  "tab_lib = example_lib\<lparr>Glob := tab_Glob\<rparr>"



section \<open>Facts about the sanitizer\<close>

lemma IndexByte_takeWhile:
  "IndexByte bs c =
     (if c \<in> set bs then int (length (takeWhile (\<lambda>b. b \<noteq> c) bs)) else - 1)"
  by (induction bs) (auto simp: Let_def)

lemma truncate_cap_eq:
  "truncate_cap buf = Some (take 512 buf, 512 < length buf)"
  by (auto simp: truncate_cap_def Buffer_Truncate_def Buffer_Len_def MaxStderrBytes_def)

lemma takeWhile_length_less:
  "c \<in> set bs \<Longrightarrow> length (takeWhile (\<lambda>b. b \<noteq> c) bs) < length bs"
  by (induction bs) auto

lemma take_length_takeWhile:
  "take (length (takeWhile P bs)) bs = takeWhile P bs"
  by (induction bs) auto

lemma first_before_last:
  "bs \<noteq> [] \<Longrightarrow>
   (length (takeWhile (\<lambda>b. b \<noteq> c) bs) < length bs - 1) = (c \<in> set (butlast bs))"
proof (induction bs)
  case Nil
  then show ?case by simp
next
  case (Cons b bs)
  show ?case
  proof (cases "bs = []")
    case True
    then show ?thesis by simp
  next
    case False
    with Cons.IH show ?thesis by auto
  qed
qed

lemma truncate_line_no_newline:
  "NL \<notin> set buf \<Longrightarrow> truncate_line (buf, d) = Some (buf, d)"
  by (simp add: truncate_line_def IndexByte_takeWhile)

lemma truncate_line_leading_newline:
  "truncate_line (NL # rest, d) = Some (NL # rest, d)"
  by (simp add: truncate_line_def)

lemma truncate_line_inner_newline:
  assumes "NL \<in> set buf" and "take 1 buf \<noteq> [NL]"
  shows "truncate_line (buf, d) =
           Some (takeWhile (\<lambda>b. b \<noteq> NL) buf, d \<or> NL \<in> set (butlast buf))"
proof -
  let ?k = "length (takeWhile (\<lambda>b. b \<noteq> NL) buf)"
  from assms have ne: "buf \<noteq> []" by auto
  from assms have pos: "0 < ?k" by (cases buf) auto
  from assms(1) have lt: "?k < length buf" by (rule takeWhile_length_less)
  have idx: "IndexByte buf NL = int ?k"
    using assms(1) by (simp add: IndexByte_takeWhile)
  have tr: "Buffer_Truncate buf (int ?k) = Some (takeWhile (\<lambda>b. b \<noteq> NL) buf)"
    using lt by (simp add: Buffer_Truncate_def Buffer_Len_def take_length_takeWhile)
  have fl: "(int ?k < Buffer_Len buf - 1) = (NL \<in> set (butlast buf))"
    using first_before_last [OF ne, of NL] lt by (simp add: Buffer_Len_def) linarith
  show ?thesis
    using pos by (auto simp: truncate_line_def idx tr fl Let_def)
qed

section \<open>Stderr truncation\<close>

text \<open>
  C9: for every stderr buffer whose first newline byte is at index 0, \<open>truncate\<close> does
  not cut at that newline: the whole buffer is kept, subject only to the 512-byte cap
  (with the marker when the cap cut it).
\<close>

theorem truncate_keeps_leading_newline:
  assumes "IndexByte buf NL = 0"
  shows "truncate buf = Some (take 512 buf @ (if 512 < length buf then ''...'' else []))"
proof -
  from assms obtain rest where buf: "buf = NL # rest"
    by (cases buf) (auto simp: Let_def split: if_splits)
  have "truncate_line (take 512 buf, 512 < length buf) =
          Some (take 512 buf, 512 < length buf)"
    using truncate_line_leading_newline [of "take 511 rest"] by (simp add: buf take_Cons')
  then show ?thesis
    by (simp add: truncate_def truncate_cap_eq truncate_mark_def Buffer_WriteString_def)
qed

theorem truncate_keeps_leading_newline_witness:
  "IndexByte (NL # ''ab'' @ NL # ''cd'') NL = 0 \<and>
   truncate (NL # ''ab'' @ NL # ''cd'') = Some (NL # ''ab'' @ NL # ''cd'')"
  using truncate_keeps_leading_newline [of "NL # ''ab'' @ NL # ''cd''"] by simp




section \<open>Carriage returns\<close>

lemma filter_split_first:
  "c \<in> set b \<Longrightarrow>
   filter (\<lambda>x. x \<noteq> c) b =
     takeWhile (\<lambda>x. x \<noteq> c) b @
     filter (\<lambda>x. x \<noteq> c) (drop (Suc (length (takeWhile (\<lambda>x. x \<noteq> c) b))) b)"
  by (induction b) auto

lemma filter_no_occurrence:
  "c \<notin> set b \<Longrightarrow> filter (\<lambda>x. x \<noteq> c) b = b"
  by (induction b) auto

lemma ReadBytes_no_delim:
  "c \<notin> set b \<Longrightarrow>
   Buffer_ReadBytes b c = (if b = [] then None else Some b, True, [])"
  by (simp add: Buffer_ReadBytes_def Buffer_readSlice_def IndexByte_takeWhile)

lemma ReadBytes_delim:
  assumes "c \<in> set b"
  shows "Buffer_ReadBytes b c =
     (Some (takeWhile (\<lambda>x. x \<noteq> c) b @ [c]), False,
      drop (Suc (length (takeWhile (\<lambda>x. x \<noteq> c) b))) b)"
proof -
  let ?k = "length (takeWhile (\<lambda>x. x \<noteq> c) b)"
  have lt: "?k < length b" using assms by (rule takeWhile_length_less)
  have nth: "b ! ?k = c"
    using assms nth_length_takeWhile [of "\<lambda>x. x \<noteq> c" b] lt by auto
  have "take (Suc ?k) b = take ?k b @ [b ! ?k]"
    using lt by (rule take_Suc_conv_app_nth)
  then have tk: "take (Suc ?k) b = takeWhile (\<lambda>x. x \<noteq> c) b @ [c]"
    by (simp add: nth take_length_takeWhile)
  have n: "nat (int ?k + 1) = Suc ?k" by simp
  show ?thesis
    using assms
    by (simp add: Buffer_ReadBytes_def Buffer_readSlice_def IndexByte_takeWhile n tk
        del: of_nat_Suc)
qed

lemma removeCarriageReturns_loop_filter:
  "removeCarriageReturns_loop b buf = buf @ filter (\<lambda>x. x \<noteq> CRET) b"
proof (induction b buf rule: removeCarriageReturns_loop.induct)
  case (1 b buf)
  show ?case
  proof (cases "CRET \<in> set b")
    case False
    then show ?thesis
      by (subst removeCarriageReturns_loop.simps)
        (simp add: ReadBytes_no_delim filter_no_occurrence slice_len_def)
  next
    case True
    let ?tw = "takeWhile (\<lambda>x. x \<noteq> CRET) b"
    let ?rest = "drop (Suc (length ?tw)) b"
    have rb: "Buffer_ReadBytes b CRET = (Some (?tw @ [CRET]), False, ?rest)"
      using True by (rule ReadBytes_delim)
    have ih: "removeCarriageReturns_loop ?rest (buf @ ?tw) =
        (buf @ ?tw) @ filter (\<lambda>x. x \<noteq> CRET) ?rest"
    proof -
      have p1: "fst (Buffer_ReadBytes b CRET) = Some (?tw @ [CRET])"
        by (simp add: rb)
      have p2: "\<not> fst (snd (Buffer_ReadBytes b CRET))"
        by (simp add: rb)
      note ih1 = "1.IH" [OF refl refl refl refl p1 p2]
      have e: "take (nat (int (length (?tw @ [CRET])) - 1)) (?tw @ [CRET]) = ?tw"
        by simp
      from ih1 show ?thesis
        unfolding rb fst_conv snd_conv slice_len_def option.case if_True not_False_eq_True e .
    qed
    have "removeCarriageReturns_loop b buf = removeCarriageReturns_loop ?rest (buf @ ?tw)"
      by (subst removeCarriageReturns_loop.simps) (simp add: rb slice_len_def)
    also note ih
    finally show ?thesis
      using filter_split_first [OF True] by simp
  qed
qed

lemma truncate_line_total: "\<exists>st. truncate_line (b, d) = Some st"
proof (cases "NL \<in> set b")
  case False
  then show ?thesis by (simp add: truncate_line_no_newline)
next
  case True
  show ?thesis
  proof (cases "take 1 b = [NL]")
    case True
    then obtain rest where "b = NL # rest" by (cases b) auto
    then show ?thesis by (simp add: truncate_line_leading_newline)
  next
    case False
    with True show ?thesis by (simp add: truncate_line_inner_newline)
  qed
qed

lemma truncate_total: "\<exists>r. truncate buf = Some r"
proof -
  obtain st where "truncate_line (take 512 buf, 512 < length buf) = Some st"
    using truncate_line_total by blast
  then show ?thesis by (simp add: truncate_def truncate_cap_eq)
qed

lemma removeCarriageReturns_eq:
  "removeCarriageReturns goos b =
     (if goos = ''windows'' then filter (\<lambda>x. x \<noteq> CRET) b else b)"
  by (simp add: removeCarriageReturns_def removeCarriageReturns_loop_filter)

lemma CommandRunner_Run_never_panics:
  "\<exists>r. CommandRunner_Run goos shellquote_Split RunTimeout command timeout = Some r"
proof -
  obtain split_cmd err where s: "shellquote_Split command = (split_cmd, err)"
    by (cases "shellquote_Split command")
  obtain out0 stderr0 runErr where r: "RunTimeout split_cmd timeout = (out0, stderr0, runErr)"
    by (cases "RunTimeout split_cmd timeout")
  obtain t where t: "truncate (removeCarriageReturns goos stderr0) = Some t"
    using truncate_total by blast
  show ?thesis
    by (simp add: CommandRunner_Run_def s r t Let_def)
qed

text \<open>
  C7: when \<open>runtime.GOOS\<close> is \<open>windows\<close>, \<open>removeCarriageReturns\<close> removes every
  carriage-return byte (0x0D), and \<open>CommandRunner.Run\<close> applies it to the captured stdout
  and to the captured stderr before \<open>truncate\<close> sees the latter; on every other platform
  \<open>removeCarriageReturns\<close> returns its input unchanged.
\<close>

theorem carriage_returns_stripped_before_truncation:
  assumes "shellquote_Split command = (split_cmd, None)"
    and "split_cmd \<noteq> []"
    and "RunTimeout split_cmd timeout = (out0, stderr0, runErr)"
  shows "(goos = ''windows'' \<longrightarrow>
            removeCarriageReturns goos b = filter (\<lambda>x. x \<noteq> CRET) b \<and>
            (\<exists>stderr.
               (if stderr0 = [] then stderr = []
                else truncate (filter (\<lambda>x. x \<noteq> CRET) stderr0) = Some stderr) \<and>
               CommandRunner_Run goos shellquote_Split RunTimeout command timeout =
                 Some (filter (\<lambda>x. x \<noteq> CRET) out0, stderr, runErr))) \<and>
         (goos \<noteq> ''windows'' \<longrightarrow> removeCarriageReturns goos b = b)"
proof -
  obtain r where r: "truncate (filter (\<lambda>x. x \<noteq> CRET) stderr0) = Some r"
    using truncate_total by blast
  show ?thesis
    using assms r
    by (auto simp: removeCarriageReturns_eq CommandRunner_Run_def Buffer_Len_def)
qed

theorem carriage_returns_stripped_before_truncation_witness:
  "removeCarriageReturns ''windows'' (''a'' @ [CRET, NL] @ ''b'' @ [CRET]) = ''a'' @ [NL] @ ''b'' \<and>
   CommandRunner_Run ''windows'' (\<lambda>c. ([c], None))
       (\<lambda>args t. (''o'' @ [CRET, NL], ''e'' @ [CRET, NL] @ ''f'', None)) ''cmd'' 5 =
     Some (''o'' @ [NL], ''e...'', None) \<and>
   removeCarriageReturns ''linux'' (''a'' @ [CRET, NL] @ ''b'' @ [CRET]) =
     ''a'' @ [CRET, NL] @ ''b'' @ [CRET]"
  using carriage_returns_stripped_before_truncation
      [of "\<lambda>c. ([c], None)" "''cmd''" "[''cmd'']"
          "\<lambda>args t. (''o'' @ [CRET, NL], ''e'' @ [CRET, NL] @ ''f'', None)" 5
          "''o'' @ [CRET, NL]" "''e'' @ [CRET, NL] @ ''f''" None "''windows''"
          "''a'' @ [CRET, NL] @ ''b'' @ [CRET]"]
    carriage_returns_stripped_before_truncation
      [of "\<lambda>c. ([c], None)" "''cmd''" "[''cmd'']"
          "\<lambda>args t. (''o'' @ [CRET, NL], ''e'' @ [CRET, NL] @ ''f'', None)" 5
          "''o'' @ [CRET, NL]" "''e'' @ [CRET, NL] @ ''f''" None "''linux''"
          "''a'' @ [CRET, NL] @ ''b'' @ [CRET]"]
  by (simp add: CRET_def NL_def truncate_def truncate_cap_def truncate_line_def
      truncate_mark_def Buffer_Len_def Buffer_Truncate_def Buffer_WriteString_def
      MaxStderrBytes_def)

section \<open>Command resolution\<close>

lemma takeWhile_no_occurrence:
  "c \<notin> set s \<Longrightarrow> takeWhile (\<lambda>x. x \<noteq> c) s = s"
  by (induction s) auto

lemma SplitN2_no_sep:
  "sep \<notin> set s \<Longrightarrow> SplitN2 s sep = [s]"
  by (simp add: SplitN2_def IndexByte_takeWhile)

lemma SplitN2_sep:
  "sep \<in> set s \<Longrightarrow>
   SplitN2 s sep =
     [takeWhile (\<lambda>c. c \<noteq> sep) s, drop (Suc (length (takeWhile (\<lambda>c. c \<noteq> sep) s))) s]"
  by (simp add: SplitN2_def IndexByte_takeWhile take_length_takeWhile nat_add_distrib
      del: of_nat_Suc)

lemma SplitN2_head:
  "SplitN2 s sep ! 0 = takeWhile (\<lambda>c. c \<noteq> sep) s"
proof (cases "sep \<in> set s")
  case True
  then show ?thesis by (simp add: SplitN2_sep)
next
  case False
  then show ?thesis by (simp add: SplitN2_no_sep takeWhile_no_occurrence)
qed

lemma SplitN2_length:
  "length (SplitN2 s sep) = (if sep \<in> set s then 2 else 1)"
  by (simp add: SplitN2_sep SplitN2_no_sep)

lemma SplitN2_nonempty:
  "SplitN2 s sep \<noteq> []"
  using SplitN2_length [of s sep] by (auto split: if_splits)

lemma append_matches_map:
  "append_matches cmdAndArgs matches commands =
     commands @ map (\<lambda>match. if length cmdAndArgs = 1 then match
                               else Join [match, cmdAndArgs ! 1] '' '') matches"
  unfolding append_matches_def
  by (induction matches arbitrary: commands) simp_all

lemma resolve_pattern_unmatched:
  assumes "glob (takeWhile (\<lambda>c. c \<noteq> CHR '' '') pattern) = ([], None)"
  shows "resolve_pattern glob pattern (commands, acc) = (commands @ [pattern], acc)"
  using assms by (simp add: resolve_pattern_def SplitN2_head SplitN2_length SplitN2_nonempty Let_def)

lemma resolve_pattern_matched:
  assumes "glob (takeWhile (\<lambda>c. c \<noteq> CHR '' '') pattern) = (matches, None)"
    and "matches \<noteq> []"
  shows "resolve_pattern glob pattern (commands, acc) =
     (commands @
      map (\<lambda>match. if CHR '' '' \<in> set pattern
                    then match @ '' '' @
                         drop (Suc (length (takeWhile (\<lambda>c. c \<noteq> CHR '' '') pattern))) pattern
                    else match) matches, acc)"
  using assms
  by (simp add: resolve_pattern_def SplitN2_head SplitN2_length SplitN2_nonempty Let_def
      append_matches_map)
    (simp add: SplitN2_sep)

lemma resolve_pattern_glob_error:
  assumes "glob (takeWhile (\<lambda>c. c \<noteq> CHR '' '') pattern) = (matches, Some err)"
  shows "resolve_pattern glob pattern (commands, acc) = (commands, AddError acc err)"
  using assms by (simp add: resolve_pattern_def SplitN2_head SplitN2_length SplitN2_nonempty Let_def)

lemma resolve_patterns_append:
  "resolve_patterns glob (ps @ qs) st = resolve_patterns glob qs (resolve_patterns glob ps st)"
  by (simp add: resolve_patterns_def)

lemma resolve_patterns_Cons:
  "resolve_patterns glob (p # qs) st = resolve_patterns glob qs (resolve_pattern glob p st)"
  by (simp add: resolve_patterns_def)

lemma resolve_patterns_Nil:
  "resolve_patterns glob [] st = st"
  by (simp add: resolve_patterns_def)

section \<open>The dynamic set updater\<close>

lemma fold_fields_append:
  "fold (\<lambda>f exPorts'. (case Value f of
                          FloatValue v \<Rightarrow> exPorts' @ [FormatFloat lib v]
                        | _ \<Rightarrow> exPorts')) fs acc =
   acc @ concat (map (\<lambda>f. (case Value f of
                              FloatValue v \<Rightarrow> [FormatFloat lib v]
                            | _ \<Rightarrow> [])) fs)"
  by (induction fs arbitrary: acc) (auto split: field_value.splits)

lemma fold_metrics_append:
  "fold (\<lambda>m exPorts.
           fold (\<lambda>f exPorts'. (case Value f of
                                   FloatValue v \<Rightarrow> exPorts' @ [FormatFloat lib v]
                                 | _ \<Rightarrow> exPorts'))
             (FieldList m) exPorts) ms acc =
   acc @ spec_parameters lib ms"
  by (induction ms arbitrary: acc) (simp_all add: spec_parameters_def fold_fields_append)

lemma Write_exPorts_spec:
  "Write_exPorts lib metrics = spec_parameters lib metrics"
  unfolding Write_exPorts_def by (simp add: fold_metrics_append)

lemma spec_parameters_no_float:
  assumes "\<forall>m\<in>set metrics. \<forall>f\<in>set (FieldList m). \<forall>v. Value f \<noteq> FloatValue v"
  shows "spec_parameters lib metrics = []"
  using assms by (auto simp: spec_parameters_def split: field_value.splits)

lemma fold_update_map_of:
  "fold (\<lambda>p m. m(g p \<mapsto> p)) ps m0 = m0 ++ map_of (rev (map (\<lambda>p. (g p, p)) ps))"
  by (induction ps arbitrary: m0) (simp_all add: map_add_upd_left)

lemma Write_loop:
  "fold (\<lambda>port (e', commands).
           (e'\<lparr>ex_cmds := (ex_cmds e')(Sprintf lib (Pattern e') port \<mapsto> port)\<rparr>,
            commands @ [Sprintf lib (Pattern e') port]))
     ps (e0, cs) =
   (e0\<lparr>ex_cmds := fold (\<lambda>p m. m(Sprintf lib (Pattern e0) p \<mapsto> p)) ps (ex_cmds e0)\<rparr>,
    cs @ map (Sprintf lib (Pattern e0)) ps)"
  by (induction ps arbitrary: e0 cs) simp_all

lemma Write_rebuild:
  assumes "Pattern e \<noteq> ''''" and "spec_parameters lib metrics \<noteq> []"
  shows "Write lib e metrics =
     (e\<lparr>ExCommands := map (Sprintf lib (Pattern e)) (spec_parameters lib metrics),
        ex_cmds := map_of (rev (map (\<lambda>p. (Sprintf lib (Pattern e) p, p))
                                  (spec_parameters lib metrics)))\<rparr>, None)"
  using assms
  by (simp add: Write_def Write_exPorts_spec Write_loop fold_update_map_of Let_def)

lemma Write_noop:
  assumes "Pattern e = '''' \<or> spec_parameters lib metrics = []"
  shows "Write lib e metrics = (e, None)"
  using assms by (auto simp: Write_def Write_exPorts_spec Let_def)

section \<open>The concrete collaborators\<close>

lemma Sprintf_from_plain:
  "CHR ''%'' \<notin> set pre \<Longrightarrow> Sprintf_from used rest a = Some r \<Longrightarrow>
   Sprintf_from used (pre @ rest) a = Some (pre @ r)"
  by (induction pre) auto

lemma Sprintf_model_placeholder:
  assumes "CHR ''%'' \<notin> set pre" and "CHR ''%'' \<notin> set post"
  shows "Sprintf_model (pre @ ''%s'' @ post) a = pre @ a @ post"
proof -
  have "Sprintf_from True [] a = Some []"
    by simp
  with assms(2) have "Sprintf_from True (post @ []) a = Some (post @ [])"
    by (rule Sprintf_from_plain)
  then have "Sprintf_from False (''%s'' @ post) a = Some (a @ post)"
    by simp
  with assms(1) have "Sprintf_from False (pre @ ''%s'' @ post) a = Some (pre @ a @ post)"
    by (rule Sprintf_from_plain)
  then show ?thesis
    by (simp add: Sprintf_model_def)
qed

lemma decimal_examples:
  "decimal 9090 = ''9090''" "decimal 9091 = ''9091''"
  by (simp_all add: decimal.simps)

lemma Sprintf_model_examples:
  "Sprintf_model ''probe %s'' a = ''probe '' @ a"
  "Sprintf_model ''check_port %s'' a = ''check_port '' @ a"
  using Sprintf_model_placeholder [of "''probe ''" "[]" a]
    Sprintf_model_placeholder [of "''check_port ''" "[]" a]
  by simp_all

lemma example_batch_parameters:
  "spec_parameters example_lib example_batch = [''9090'', ''9091'']"
  by (simp add: spec_parameters_def example_batch_def example_lib_def FieldList_def
      FormatFloat_integral_def decimal_examples)

text \<open>
  C2: a call of \<open>Write\<close> in which no pattern is configured, or in which no field of the
  batch holds a \<open>float64\<close>, leaves the plugin as it was; in particular the dynamic
  command list \<open>ExCommands\<close> and the dynamic binding \<open>ex_cmds\<close> keep their contents
  (they are not reset to empty).
\<close>

theorem Write_noop_without_parameters:
  assumes "Pattern e = '''' \<or>
           (\<forall>m\<in>set metrics. \<forall>f\<in>set (FieldList m). \<forall>v. Value f \<noteq> FloatValue v)"
  shows "Write lib e metrics = (e, None) \<and>
         ExCommands (fst (Write lib e metrics)) = ExCommands e \<and>
         ex_cmds (fst (Write lib e metrics)) = ex_cmds e"
proof -
  from assms have "Pattern e = '''' \<or> spec_parameters lib metrics = []"
    using spec_parameters_no_float [of metrics lib] by blast
  then have "Write lib e metrics = (e, None)"
    by (rule Write_noop)
  then show ?thesis by simp
qed

theorem Write_noop_without_parameters_witness:
  "ExCommands (fst (Write example_lib
      (example_plugin\<lparr>Pattern := ''probe %s'', ExCommands := [''probe 1''],
                       ex_cmds := [''probe 1'' \<mapsto> ''1'']\<rparr>)
      [\<lparr>Name = ''listen'', Tags = Map.empty,
        Fields = [\<lparr>Key = ''port'', Value = IntValue 9090\<rparr>,
                  \<lparr>Key = ''proto'', Value = StringValue ''tcp''\<rparr>]\<rparr>])) = [''probe 1''] \<and>
   ex_cmds (fst (Write example_lib
      (example_plugin\<lparr>Pattern := ''probe %s'', ExCommands := [''probe 1''],
                       ex_cmds := [''probe 1'' \<mapsto> ''1'']\<rparr>)
      [\<lparr>Name = ''listen'', Tags = Map.empty,
        Fields = [\<lparr>Key = ''port'', Value = IntValue 9090\<rparr>,
                  \<lparr>Key = ''proto'', Value = StringValue ''tcp''\<rparr>]\<rparr>])) ''probe 1'' = Some ''1'' \<and>
   ExCommands (fst (Write example_lib
      (example_plugin\<lparr>Pattern := '''', ExCommands := [''probe 1''],
                       ex_cmds := [''probe 1'' \<mapsto> ''1'']\<rparr>) example_batch)) = [''probe 1''] \<and>
   ExCommands (fst (Write example_lib
      (example_plugin\<lparr>Pattern := ''probe %s'', ExCommands := [''probe 1''],
                       ex_cmds := [''probe 1'' \<mapsto> ''1'']\<rparr>) [])) = [''probe 1'']"
  using Write_noop_without_parameters
      [of "example_plugin\<lparr>Pattern := ''probe %s'', ExCommands := [''probe 1''],
                           ex_cmds := [''probe 1'' \<mapsto> ''1'']\<rparr>"
          "[\<lparr>Name = ''listen'', Tags = Map.empty,
             Fields = [\<lparr>Key = ''port'', Value = IntValue 9090\<rparr>,
                       \<lparr>Key = ''proto'', Value = StringValue ''tcp''\<rparr>]\<rparr>]" example_lib]
    Write_noop_without_parameters
      [of "example_plugin\<lparr>Pattern := '''', ExCommands := [''probe 1''],
                           ex_cmds := [''probe 1'' \<mapsto> ''1'']\<rparr>" example_batch example_lib]
    Write_noop_without_parameters
      [of "example_plugin\<lparr>Pattern := ''probe %s'', ExCommands := [''probe 1''],
                           ex_cmds := [''probe 1'' \<mapsto> ''1'']\<rparr>" "[]" example_lib]
  by (simp add: FieldList_def)

text \<open>
  C3: a call of \<open>Write\<close> with a configured pattern and at least one extracted parameter
  rebuilds the dynamic set from scratch.  The extracted parameters are the formatted
  \<open>float64\<close> field values in metric and then field order; the new command list is the
  pattern with each parameter substituted, one command per parameter and in that order;
  the new binding maps each command to its parameter; and the result does not depend on
  the dynamic set that was there before.
\<close>

theorem Write_rebuilds_dynamic_set:
  assumes "Pattern e \<noteq> ''''" and "spec_parameters lib metrics \<noteq> []"
  shows "Write_exPorts lib metrics = spec_parameters lib metrics \<and>
         Write lib e metrics =
           (e\<lparr>ExCommands := map (Sprintf lib (Pattern e)) (spec_parameters lib metrics),
              ex_cmds := map_of (rev (map (\<lambda>p. (Sprintf lib (Pattern e) p, p))
                                        (spec_parameters lib metrics)))\<rparr>, None) \<and>
         Write lib (e\<lparr>ExCommands := old_commands, ex_cmds := old_binding\<rparr>) metrics =
           Write lib e metrics"
proof -
  note w = Write_rebuild [OF assms]
  have "Pattern (e\<lparr>ExCommands := old_commands, ex_cmds := old_binding\<rparr>) \<noteq> ''''"
    using assms(1) by simp
  from Write_rebuild [OF this assms(2)] w Write_exPorts_spec [of lib metrics]
  show ?thesis by simp
qed

theorem Write_rebuilds_dynamic_set_witness:
  "Pattern (example_plugin\<lparr>Pattern := ''probe %s'', ExCommands := [''probe 1''],
                           ex_cmds := [''probe 1'' \<mapsto> ''1'']\<rparr>) \<noteq> '''' \<and>
   spec_parameters example_lib example_batch = [''9090'', ''9091''] \<and>
   ExCommands (fst (Write example_lib
      (example_plugin\<lparr>Pattern := ''probe %s'', ExCommands := [''probe 1''],
                       ex_cmds := [''probe 1'' \<mapsto> ''1'']\<rparr>) example_batch)) =
     [''probe 9090'', ''probe 9091''] \<and>
   ex_cmds (fst (Write example_lib
      (example_plugin\<lparr>Pattern := ''probe %s'', ExCommands := [''probe 1''],
                       ex_cmds := [''probe 1'' \<mapsto> ''1'']\<rparr>) example_batch)) =
     [''probe 9090'' \<mapsto> ''9090'', ''probe 9091'' \<mapsto> ''9091'']"
proof -
  let ?e = "example_plugin\<lparr>Pattern := ''probe %s'', ExCommands := [''probe 1''],
                           ex_cmds := [''probe 1'' \<mapsto> ''1'']\<rparr>"
  have p: "Pattern ?e \<noteq> ''''"
    by simp
  have q: "spec_parameters example_lib example_batch \<noteq> []"
    by (simp add: example_batch_parameters)
  have s: "Sprintf example_lib = Sprintf_model"
    by (simp add: example_lib_def)
  from Write_rebuilds_dynamic_set [OF p q, where old_commands = "[]" and old_binding = Map.empty]
  have w: "Write example_lib ?e example_batch =
      (?e\<lparr>ExCommands := map (Sprintf example_lib (Pattern ?e))
                               (spec_parameters example_lib example_batch),
           ex_cmds := map_of (rev (map (\<lambda>p. (Sprintf example_lib (Pattern ?e) p, p))
                                     (spec_parameters example_lib example_batch)))\<rparr>, None)"
    by (rule conjunct2 [THEN conjunct1])
  show ?thesis
    by (simp add: w example_batch_parameters s Sprintf_model_examples)
qed

section \<open>Metric tagging\<close>

lemma addMetric_cases:
  "addMetric e command metric acc =
     AddMetric acc
       (case ex_cmds e command of
          Some dport \<Rightarrow>
            (case cmds e command of
               Some sport \<Rightarrow> AddTag (AddTag metric ''port'' sport) ''port'' dport
             | None \<Rightarrow> AddTag metric ''port'' dport)
        | None \<Rightarrow>
            (case cmds e command of
               Some sport \<Rightarrow> AddTag metric ''port'' sport
             | None \<Rightarrow> metric))"
  by (simp add: addMetric_def addExMetric_def Let_def split: option.splits)

lemma AddTag_twice:
  "AddTag (AddTag metric key v) key w = AddTag metric key w"
  by (simp add: AddTag_def)

lemma Tags_AddTag:
  "Tags (AddTag metric key v) key = Some v"
  by (simp add: AddTag_def)

lemma acc_metrics_AddMetric:
  "acc_metrics (AddMetric acc m) = acc_metrics acc @ [m]"
  by (simp add: AddMetric_def)

lemma example_Init:
  "cmds (fst (Init example_lib
       (example_plugin\<lparr>Pattern := ''check_port %s'', Ports := ''80,443''\<rparr>))) =
     [''check_port 80'' \<mapsto> ''80'', ''check_port 443'' \<mapsto> ''443'']"
  "ex_cmds (fst (Init example_lib
       (example_plugin\<lparr>Pattern := ''check_port %s'', Ports := ''80,443''\<rparr>))) = Map.empty"
  "Commands (fst (Init example_lib
       (example_plugin\<lparr>Pattern := ''check_port %s'', Ports := ''80,443''\<rparr>))) =
     [''check_port 80'', ''check_port 443'']"
  by (simp_all add: Init_def addPatternCommands_def example_plugin_def example_lib_def
      Split_def Sprintf_model_examples Let_def)

text \<open>
  C6: for a metric produced by a command, \<open>addMetric\<close> hands the sink the metric with the
  tag \<open>port\<close> set to the bound parameter when the command string is a key of the static
  binding \<open>cmds\<close> or of the dynamic binding \<open>ex_cmds\<close> (the tag is set before the
  metric is appended to the sink), and the metric as it was when the command is a key of
  neither; \<open>ProcessCommand\<close> passes every parsed metric of the command through
  \<open>addMetric\<close>.
\<close>

theorem port_tag_attached:
  "(cmds e command = Some port \<and> ex_cmds e command = None \<longrightarrow>
      addMetric e command metric acc = AddMetric acc (AddTag metric ''port'' port)) \<and>
   (ex_cmds e command = Some port \<longrightarrow>
      addMetric e command metric acc = AddMetric acc (AddTag metric ''port'' port)) \<and>
   (cmds e command = None \<and> ex_cmds e command = None \<longrightarrow>
      addMetric e command metric acc = AddMetric acc metric) \<and>
   Tags (AddTag metric ''port'' port) ''port'' = Some port \<and>
   acc_metrics (AddMetric acc delivered) = acc_metrics acc @ [delivered] \<and>
   (\<not> isNagios (parser e) \<and> runner e command (Timeout e) = (out, errbuf, None) \<and>
    Parse (parser e) out = (metrics, None) \<longrightarrow>
      ProcessCommand lib e command acc = fold (addMetric e command) metrics acc)"
  by (auto simp: addMetric_cases AddTag_twice Tags_AddTag acc_metrics_AddMetric
      ProcessCommand_def split: option.splits)

theorem port_tag_attached_witness:
  "cmds (fst (Init example_lib
       (example_plugin\<lparr>Pattern := ''check_port %s'', Ports := ''80,443''\<rparr>))) =
     [''check_port 80'' \<mapsto> ''80'', ''check_port 443'' \<mapsto> ''443''] \<and>
   addMetric (fst (Init example_lib
       (example_plugin\<lparr>Pattern := ''check_port %s'', Ports := ''80,443''\<rparr>)))
       ''check_port 80'' \<lparr>Name = ''open'', Tags = Map.empty, Fields = []\<rparr> empty_acc =
     \<lparr>acc_metrics = [\<lparr>Name = ''open'', Tags = [''port'' \<mapsto> ''80''], Fields = []\<rparr>],
      acc_errors = [], log_errors = []\<rparr> \<and>
   addMetric (fst (Init example_lib
       (example_plugin\<lparr>Pattern := ''check_port %s'', Ports := ''80,443''\<rparr>)))
       ''check_port 443'' \<lparr>Name = ''open'', Tags = Map.empty, Fields = []\<rparr> empty_acc =
     \<lparr>acc_metrics = [\<lparr>Name = ''open'', Tags = [''port'' \<mapsto> ''443''], Fields = []\<rparr>],
      acc_errors = [], log_errors = []\<rparr> \<and>
   addMetric (fst (Init example_lib
       (example_plugin\<lparr>Pattern := ''check_port %s'', Ports := ''80,443''\<rparr>)))
       ''uptime'' \<lparr>Name = ''open'', Tags = Map.empty, Fields = []\<rparr> empty_acc =
     \<lparr>acc_metrics = [\<lparr>Name = ''open'', Tags = Map.empty, Fields = []\<rparr>],
      acc_errors = [], log_errors = []\<rparr>"
proof -
  let ?e = "fst (Init example_lib
       (example_plugin\<lparr>Pattern := ''check_port %s'', Ports := ''80,443''\<rparr>))"
  let ?m = "\<lparr>Name = ''open'', Tags = Map.empty, Fields = []\<rparr> :: int Metric"
  have a: "addMetric ?e ''check_port 80'' ?m empty_acc =
      AddMetric empty_acc (AddTag ?m ''port'' ''80'')"
    using port_tag_attached [of ?e "''check_port 80''" "''80''" ?m empty_acc]
    by (simp add: example_Init)
  have b: "addMetric ?e ''check_port 443'' ?m empty_acc =
      AddMetric empty_acc (AddTag ?m ''port'' ''443'')"
    using port_tag_attached [of ?e "''check_port 443''" "''443''" ?m empty_acc]
    by (simp add: example_Init)
  have c: "addMetric ?e ''uptime'' ?m empty_acc = AddMetric empty_acc ?m"
    using port_tag_attached [of ?e "''uptime''" "''80''" ?m empty_acc]
    by (simp add: example_Init)
  show ?thesis
    unfolding a b c by (simp add: example_Init AddMetric_def AddTag_def empty_acc_def)
qed

text \<open>
  C10: when the command string is a key of both bindings, the static tag is added first
  and the dynamic tag afterwards, so the \<open>port\<close> tag of the metric handed to the sink is
  the parameter of the dynamic binding.
\<close>

theorem dynamic_port_overrides_static:
  assumes "cmds e command = Some static_port" and "ex_cmds e command = Some dynamic_port"
  shows "addMetric e command metric acc =
           AddMetric acc (AddTag (AddTag metric ''port'' static_port) ''port'' dynamic_port) \<and>
         Tags (last (acc_metrics (addMetric e command metric acc))) ''port'' =
           Some dynamic_port"
  using assms by (simp add: addMetric_cases Tags_AddTag acc_metrics_AddMetric)

theorem dynamic_port_overrides_static_witness:
  "cmds (example_plugin\<lparr>cmds := [''probe 80'' \<mapsto> ''80''],
                        ex_cmds := [''probe 80'' \<mapsto> ''080'']\<rparr>) ''probe 80'' = Some ''80'' \<and>
   ex_cmds (example_plugin\<lparr>cmds := [''probe 80'' \<mapsto> ''80''],
                           ex_cmds := [''probe 80'' \<mapsto> ''080'']\<rparr>) ''probe 80'' =
     Some ''080'' \<and>
   Tags (last (acc_metrics
     (addMetric (example_plugin\<lparr>cmds := [''probe 80'' \<mapsto> ''80''],
                                 ex_cmds := [''probe 80'' \<mapsto> ''080'']\<rparr>)
        ''probe 80'' \<lparr>Name = ''open'', Tags = Map.empty, Fields = []\<rparr> empty_acc)))
     ''port'' = Some ''080''"
  using dynamic_port_overrides_static
      [of "example_plugin\<lparr>cmds := [''probe 80'' \<mapsto> ''80''],
                           ex_cmds := [''probe 80'' \<mapsto> ''080'']\<rparr>"
          "''probe 80''" "''80''" "''080''"
          "\<lparr>Name = ''open'', Tags = Map.empty, Fields = []\<rparr>" empty_acc]
  by (simp add: acc_metrics_AddMetric Tags_AddTag)

section \<open>Goroutines and schedules\<close>

lemma do_call_addMetric:
  "do_call e (Call_addMetric command m) = addMetric e command m"
  by (rule ext) simp

lemma fold_do_call_addMetric:
  "fold (do_call e) (map (Call_addMetric command) ms) acc = fold (addMetric e command) ms acc"
  by (induction ms arbitrary: acc) simp_all

lemma ProcessCommand_calls_run:
  "fold (do_call e) (ProcessCommand_calls lib e command) acc = ProcessCommand lib e command acc"
  by (simp add: ProcessCommand_calls_def ProcessCommand_def fold_do_call_addMetric
      split: prod.splits option.splits)

lemma interleave_single:
  "interleave sched [q] = q"
  by (induction sched arbitrary: q) (simp_all add: Let_def)




lemma concat_live:
  "concat (filter (\<lambda>q. q \<noteq> []) queues) = concat queues"
  by (induction queues) simp_all

lemma interleave_live:
  "interleave sched (filter (\<lambda>q. q \<noteq> []) queues) = interleave sched queues"
proof (cases sched)
  case Nil
  then show ?thesis by (simp add: concat_live)
next
  case (Cons i sched')
  have "filter (\<lambda>q. q \<noteq> []) (filter (\<lambda>q. q \<noteq> []) queues) = filter (\<lambda>q. q \<noteq> []) queues"
    by simp
  then show ?thesis
    unfolding Cons interleave.simps by (simp only:)
qed

lemma live_position:
  assumes "k < length queues" and "queues ! k = x # rest"
  defines "live \<equiv> filter (\<lambda>q. q \<noteq> []) queues"
  defines "i \<equiv> length (filter (\<lambda>q. q \<noteq> []) (take k queues))"
  shows "i < length live" and "live ! i = x # rest"
    and "filter (\<lambda>q. q \<noteq> []) (live[i := rest]) = filter (\<lambda>q. q \<noteq> []) (queues[k := rest])"
proof -
  let ?ne = "\<lambda>q::'a list. q \<noteq> []"
  have split: "queues = take k queues @ (x # rest) # drop (Suc k) queues"
    using assms(1,2) by (metis id_take_nth_drop)
  have live: "live = filter ?ne (take k queues) @ (x # rest) # filter ?ne (drop (Suc k) queues)"
    unfolding live_def by (subst split) simp
  show "i < length live"
    by (simp add: live i_def)
  show "live ! i = x # rest"
    by (simp add: live i_def nth_append)
  have upd: "queues[k := rest] = take k queues @ rest # drop (Suc k) queues"
    using assms(1) by (rule upd_conv_take_nth_drop)
  have "live[i := rest] =
      filter ?ne (take k queues) @ rest # filter ?ne (drop (Suc k) queues)"
    by (simp add: live i_def list_update_append)
  then show "filter ?ne (live[i := rest]) = filter ?ne (queues[k := rest])"
    by (simp add: upd)
qed

lemma every_interleaving_scheduled:
  "interleaving queues calls \<Longrightarrow> \<exists>sched. interleave sched queues = calls"
proof (induction rule: interleaving.induct)
  case (finished queues)
  then have "interleave [] queues = []" by simp
  then show ?case by blast
next
  case (next_call k queues x rest calls)
  then obtain sched where sched: "interleave sched (queues[k := rest]) = calls"
    by blast
  let ?ne = "\<lambda>q::'a list. q \<noteq> []"
  let ?live = "filter ?ne queues"
  let ?i = "length (filter ?ne (take k queues))"
  note pos = live_position [OF next_call.hyps(1,2)]
  from pos(1) have ne: "?live \<noteq> []" by auto
  from pos(1) have m: "?i mod length ?live = ?i" by simp
  have "interleave sched (?live[?i := rest]) =
      interleave sched (filter ?ne (?live[?i := rest]))"
    by (simp only: interleave_live)
  also have "\<dots> = interleave sched (filter ?ne (queues[k := rest]))"
    by (simp only: pos(3))
  also have "\<dots> = calls"
    by (simp only: interleave_live sched)
  finally have rec: "interleave sched (?live[?i := rest]) = calls" .
  have "interleave (?i # sched) queues = x # calls"
    using ne by (simp add: Let_def m pos(2) rec)
  then show ?case by blast
qed

section \<open>What a collection cycle reports\<close>

lemma resolve_pattern_commands:
  "fst (resolve_pattern glob p (cs, acc)) = cs @ fst (resolve_pattern glob p ([], acc'))"
proof -
  obtain ms eo where g: "glob (takeWhile (\<lambda>c. c \<noteq> CHR '' '') p) = (ms, eo)"
    by (cases "glob (takeWhile (\<lambda>c. c \<noteq> CHR '' '') p)")
  show ?thesis
  proof (cases eo)
    case (Some err)
    with g show ?thesis by (simp add: resolve_pattern_glob_error)
  next
    case None
    show ?thesis
    proof (cases "ms = []")
      case True
      with g None show ?thesis by (simp add: resolve_pattern_unmatched)
    next
      case False
      with g None show ?thesis by (simp add: resolve_pattern_matched)
    qed
  qed
qed


lemma resolve_patterns_commands:
  fixes acc acc' :: "'f Accumulator"
  shows "fst (resolve_patterns glob ps (cs, acc)) =
           cs @ fst (resolve_patterns glob ps ([], acc'))"
proof (induction ps arbitrary: cs acc acc')
  case Nil
  then show ?case by (simp add: resolve_patterns_Nil)
next
  case (Cons p ps)
  obtain c1 a1 where r1: "resolve_pattern glob p (cs, acc) = (c1, a1)"
    by (cases "resolve_pattern glob p (cs, acc)")
  obtain c2 a2 where r2: "resolve_pattern glob p ([], acc') = (c2, a2)"
    by (cases "resolve_pattern glob p ([], acc')")
  from r1 r2 resolve_pattern_commands [of glob p cs acc acc'] have c1: "c1 = cs @ c2"
    by simp
  have "fst (resolve_patterns glob ps (c1, a1)) = c1 @ fst (resolve_patterns glob ps ([], a2))"
    by (rule Cons.IH)
  moreover have "fst (resolve_patterns glob ps (c2, a2)) =
      c2 @ fst (resolve_patterns glob ps ([], a2))"
    by (rule Cons.IH)
  ultimately show ?case
    by (simp add: resolve_patterns_Cons r1 r2 c1)
qed








section \<open>The collection cycle\<close>

lemma resolve_pattern_resolved:
  "fst (resolve_pattern glob p (cs, acc)) = cs @ resolved_commands glob [p]"
proof -
  obtain ms eo where g: "glob (takeWhile (\<lambda>c. c \<noteq> CHR '' '') p) = (ms, eo)"
    by (cases "glob (takeWhile (\<lambda>c. c \<noteq> CHR '' '') p)")
  show ?thesis
  proof (cases eo)
    case (Some err)
    with g show ?thesis by (simp add: resolve_pattern_glob_error resolved_commands_def)
  next
    case None
    show ?thesis
    proof (cases "ms = []")
      case True
      with g None show ?thesis by (simp add: resolve_pattern_unmatched resolved_commands_def)
    next
      case False
      with g None show ?thesis by (simp add: resolve_pattern_matched resolved_commands_def)
    qed
  qed
qed

lemma resolved_commands_Cons:
  "resolved_commands glob (p # ps) = resolved_commands glob [p] @ resolved_commands glob ps"
  by (simp add: resolved_commands_def)

lemma resolve_patterns_resolved:
  "fst (resolve_patterns glob ps (cs, acc)) = cs @ resolved_commands glob ps"
proof (induction ps arbitrary: cs acc)
  case Nil
  then show ?case by (simp add: resolve_patterns_Nil resolved_commands_def)
next
  case (Cons p ps)
  obtain c1 a1 where r1: "resolve_pattern glob p (cs, acc) = (c1, a1)"
    by (cases "resolve_pattern glob p (cs, acc)")
  from r1 resolve_pattern_resolved [of glob p cs acc]
  have c1: "c1 = cs @ resolved_commands glob [p]" by simp
  have "fst (resolve_patterns glob ps (c1, a1)) = c1 @ resolved_commands glob ps"
    by (rule Cons.IH)
  then show ?case
    by (simp add: resolve_patterns_Cons r1 c1 resolved_commands_Cons [of glob p ps])
qed

lemma Gather_resolve_eq:
  "Gather_resolve lib e acc =
     (let e' = (if Command e \<noteq> ''''
                then e\<lparr>Commands := Commands e @ [Command e], Command := ''''\<rparr> else e)
      in (e',
          fst (resolve_patterns (Glob lib) (Commands e') ([], acc)),
          fst (resolve_patterns (Glob lib) (ExCommands e')
                 ([], snd (resolve_patterns (Glob lib) (Commands e') ([], acc)))),
          snd (resolve_patterns (Glob lib) (ExCommands e')
                 ([], snd (resolve_patterns (Glob lib) (Commands e') ([], acc))))))"
  by (simp add: Gather_resolve_def readExCommandsLock_def Let_def split: prod.splits)

lemma Gather_eq:
  "Gather lib sched e acc =
     (case Gather_resolve lib e acc of
        (e', commands, exCommands, acc2) \<Rightarrow>
          (e',
           fold (do_call e')
             (interleave sched (map (ProcessCommand_calls lib e') (commands @ exCommands))) acc2,
           None))"
  by (simp add: Gather_def Let_def split: prod.splits)








section \<open>Resolution of one pattern\<close>

lemma resolved_commands_context:
  "resolved_commands glob (ps @ p # qs) =
     resolved_commands glob ps @ resolved_commands glob [p] @ resolved_commands glob qs"
  by (simp add: resolved_commands_def)

lemma resolved_commands_unmatched:
  "glob (takeWhile (\<lambda>c. c \<noteq> CHR '' '') p) = ([], None) \<Longrightarrow> resolved_commands glob [p] = [p]"
  by (simp add: resolved_commands_def)

lemma resolved_commands_matched:
  "glob (takeWhile (\<lambda>c. c \<noteq> CHR '' '') p) = (matches, None) \<Longrightarrow> matches \<noteq> [] \<Longrightarrow>
   resolved_commands glob [p] =
     map (\<lambda>match. if CHR '' '' \<in> set p
                   then match @ '' '' @ drop (Suc (length (takeWhile (\<lambda>c. c \<noteq> CHR '' '') p))) p
                   else match) matches"
  by (simp add: resolved_commands_def)

lemma readExCommandsLock_commands:
  "fst (readExCommandsLock lib e acc) = resolved_commands (Glob lib) (ExCommands e)"
  by (simp add: readExCommandsLock_def resolve_patterns_resolved)

lemma Gather_resolve_static:
  "Command e = '''' \<Longrightarrow>
   fst (snd (Gather_resolve lib e acc)) = resolved_commands (Glob lib) (Commands e)"
  by (simp add: Gather_resolve_eq resolve_patterns_resolved)

lemma Gather_single_static:
  assumes "resolve_patterns (Glob lib) [pattern] ([], acc) = (commands, acc)"
  shows "Gather lib sched (e\<lparr>Commands := [pattern], Command := '''', ExCommands := []\<rparr>) acc =
     (e\<lparr>Commands := [pattern], Command := '''', ExCommands := []\<rparr>,
      fold (do_call (e\<lparr>Commands := [pattern], Command := '''', ExCommands := []\<rparr>))
        (interleave sched
           (map (ProcessCommand_calls lib
                   (e\<lparr>Commands := [pattern], Command := '''', ExCommands := []\<rparr>)) commands))
        acc,
      None)"
  using assms by (simp add: Gather_eq Gather_resolve_eq resolve_patterns_Nil)

text \<open>
  C4, as the code has it: a command pattern whose first token, the text before its first
  space, has no glob match and no glob error contributes exactly itself, unchanged, to
  the resolved commands and nothing to the errors of the sink, whatever patterns stand
  before and after it.  This holds for the dynamic list in \<open>readExCommandsLock\<close> and for
  the static list in \<open>Gather\<close>, which runs the pattern as the command.
\<close>

theorem unmatched_pattern_kept:
  assumes "Glob lib (takeWhile (\<lambda>c. c \<noteq> CHR '' '') pattern) = ([], None)"
  shows "resolve_patterns (Glob lib) (ps @ pattern # qs) st =
           resolve_patterns (Glob lib) qs
             (fst (resolve_patterns (Glob lib) ps st) @ [pattern],
              snd (resolve_patterns (Glob lib) ps st)) \<and>
         readExCommandsLock lib (e\<lparr>ExCommands := [pattern]\<rparr>) acc = ([pattern], acc) \<and>
         fst (readExCommandsLock lib (e\<lparr>ExCommands := ps @ pattern # qs\<rparr>) acc) =
           fst (readExCommandsLock lib (e\<lparr>ExCommands := ps\<rparr>) acc) @ [pattern] @
           fst (readExCommandsLock lib (e\<lparr>ExCommands := qs\<rparr>) acc) \<and>
         fst (snd (Gather_resolve lib (e\<lparr>Commands := ps @ pattern # qs, Command := ''''\<rparr>) acc)) =
           fst (snd (Gather_resolve lib (e\<lparr>Commands := ps, Command := ''''\<rparr>) acc)) @ [pattern] @
           fst (snd (Gather_resolve lib (e\<lparr>Commands := qs, Command := ''''\<rparr>) acc)) \<and>
         Gather lib sched (e\<lparr>Commands := [pattern], Command := '''', ExCommands := []\<rparr>) acc =
           (e\<lparr>Commands := [pattern], Command := '''', ExCommands := []\<rparr>,
            ProcessCommand lib (e\<lparr>Commands := [pattern], Command := '''', ExCommands := []\<rparr>)
              pattern acc,
            None)"
proof -
  note step = resolve_pattern_unmatched [of "Glob lib" pattern, OF assms]
  note res = resolved_commands_unmatched [of "Glob lib" pattern, OF assms]
  obtain cs a where ps: "resolve_patterns (Glob lib) ps st = (cs, a)"
    by (cases "resolve_patterns (Glob lib) ps st")
  have ctx: "resolve_patterns (Glob lib) (ps @ pattern # qs) st =
      resolve_patterns (Glob lib) qs (cs @ [pattern], a)"
    by (simp add: resolve_patterns_append resolve_patterns_Cons ps step)
  have one: "resolve_patterns (Glob lib) [pattern] ([], acc) = ([pattern], acc)"
    by (simp add: resolve_patterns_Cons resolve_patterns_Nil step)
  have ex: "readExCommandsLock lib (e\<lparr>ExCommands := [pattern]\<rparr>) acc = ([pattern], acc)"
    by (simp add: readExCommandsLock_def one)
  have exc: "fst (readExCommandsLock lib (e\<lparr>ExCommands := ps @ pattern # qs\<rparr>) acc) =
           fst (readExCommandsLock lib (e\<lparr>ExCommands := ps\<rparr>) acc) @ [pattern] @
           fst (readExCommandsLock lib (e\<lparr>ExCommands := qs\<rparr>) acc)"
    by (simp add: readExCommandsLock_commands resolved_commands_context [of _ ps pattern qs] res)
  have gr: "fst (snd (Gather_resolve lib (e\<lparr>Commands := ps @ pattern # qs, Command := ''''\<rparr>) acc)) =
           fst (snd (Gather_resolve lib (e\<lparr>Commands := ps, Command := ''''\<rparr>) acc)) @ [pattern] @
           fst (snd (Gather_resolve lib (e\<lparr>Commands := qs, Command := ''''\<rparr>) acc))"
    by (simp add: Gather_resolve_static resolved_commands_context [of _ ps pattern qs] res)
  have g: "Gather lib sched (e\<lparr>Commands := [pattern], Command := '''', ExCommands := []\<rparr>) acc =
           (e\<lparr>Commands := [pattern], Command := '''', ExCommands := []\<rparr>,
            ProcessCommand lib (e\<lparr>Commands := [pattern], Command := '''', ExCommands := []\<rparr>)
              pattern acc,
            None)"
    by (simp add: Gather_single_static [OF one] interleave_single ProcessCommand_calls_run)
  from ctx ex exc gr g show ?thesis
    by (simp add: ps)
qed

theorem unmatched_pattern_kept_witness:
  "Glob example_lib (takeWhile (\<lambda>c. c \<noteq> CHR '' '') ''nonexistent_glob_*.sh'') = ([], None) \<and>
   readExCommandsLock example_lib (example_plugin\<lparr>ExCommands := [''nonexistent_glob_*.sh'']\<rparr>)
       empty_acc =
     ([''nonexistent_glob_*.sh''], empty_acc) \<and>
   resolve_patterns (Glob example_lib) ([] @ ''nonexistent_glob_*.sh'' # []) ([], empty_acc) =
     ([''nonexistent_glob_*.sh''], empty_acc) \<and>
   fst (snd (Gather_resolve example_lib
      (example_plugin\<lparr>Commands := [] @ ''nonexistent_glob_*.sh'' # [], Command := ''''\<rparr>)
      empty_acc)) = [''nonexistent_glob_*.sh'']"
  using unmatched_pattern_kept
      [of example_lib "''nonexistent_glob_*.sh''" "[]" "[]" "([], empty_acc)"
          example_plugin empty_acc]
  by (simp add: example_lib_def example_Glob_def resolve_patterns_def Gather_resolve_def
      readExCommandsLock_def)

text \<open>
  C4 as stated, for the first whitespace-delimited token, fails on a pattern with a tab:
  the token before the tab has no match and no error, but the code cuts at spaces only,
  hands the whole pattern to \<open>filepath.Glob\<close>, and on its error drops the pattern and
  reports the error.
\<close>

theorem unmatched_whitespace_token_counterexample:
  "Glob tab_lib (whitespace_token (''mycmd'' @ [TAB] @ ''['')) = ([], None) \<and>
   readExCommandsLock tab_lib (example_plugin\<lparr>ExCommands := [''mycmd'' @ [TAB] @ ''['']\<rparr>)
       empty_acc =
     ([], AddError empty_acc (Error ''syntax error in pattern'')) \<and>
   fst (snd (Gather_resolve tab_lib
      (example_plugin\<lparr>Commands := [''mycmd'' @ [TAB] @ ''['']\<rparr>) empty_acc)) = []"
  by (simp add: tab_lib_def tab_Glob_def example_lib_def whitespace_token_def is_whitespace_def
      TAB_def NL_def CRET_def readExCommandsLock_def Gather_resolve_def resolve_patterns_def
      resolve_pattern_def SplitN2_def example_plugin_def Let_def)

text \<open>
  C5, as the code has it: a command pattern whose first token, the text before its first
  space, has the glob matches \<open>matches\<close>, at least one, contributes one resolved command
  per match, in the order of the matches: the match alone when the pattern has no space,
  otherwise the match, one space and the remainder of the pattern after its first space.
  This holds for the dynamic list in \<open>readExCommandsLock\<close> and for the static list in
  \<open>Gather\<close>, which runs one goroutine for each of these commands.
\<close>

theorem matched_pattern_expanded:
  assumes "Glob lib (takeWhile (\<lambda>c. c \<noteq> CHR '' '') pattern) = (matches, None)"
    and "matches \<noteq> []"
    and "expansions =
           map (\<lambda>match.
                  if CHR '' '' \<in> set pattern
                  then match @ '' '' @
                       drop (Suc (length (takeWhile (\<lambda>c. c \<noteq> CHR '' '') pattern))) pattern
                  else match) matches"
  shows "resolve_patterns (Glob lib) (ps @ pattern # qs) st =
           resolve_patterns (Glob lib) qs
             (fst (resolve_patterns (Glob lib) ps st) @ expansions,
              snd (resolve_patterns (Glob lib) ps st)) \<and>
         readExCommandsLock lib (e\<lparr>ExCommands := [pattern]\<rparr>) acc = (expansions, acc) \<and>
         length (fst (readExCommandsLock lib (e\<lparr>ExCommands := [pattern]\<rparr>) acc)) =
           length matches \<and>
         fst (readExCommandsLock lib (e\<lparr>ExCommands := ps @ pattern # qs\<rparr>) acc) =
           fst (readExCommandsLock lib (e\<lparr>ExCommands := ps\<rparr>) acc) @ expansions @
           fst (readExCommandsLock lib (e\<lparr>ExCommands := qs\<rparr>) acc) \<and>
         fst (snd (Gather_resolve lib (e\<lparr>Commands := ps @ pattern # qs, Command := ''''\<rparr>) acc)) =
           fst (snd (Gather_resolve lib (e\<lparr>Commands := ps, Command := ''''\<rparr>) acc)) @
           expansions @
           fst (snd (Gather_resolve lib (e\<lparr>Commands := qs, Command := ''''\<rparr>) acc)) \<and>
         Gather lib sched (e\<lparr>Commands := [pattern], Command := '''', ExCommands := []\<rparr>) acc =
           (e\<lparr>Commands := [pattern], Command := '''', ExCommands := []\<rparr>,
            fold (do_call (e\<lparr>Commands := [pattern], Command := '''', ExCommands := []\<rparr>))
              (interleave sched
                 (map (ProcessCommand_calls lib
                         (e\<lparr>Commands := [pattern], Command := '''', ExCommands := []\<rparr>))
                    expansions))
              acc,
            None)"
proof -
  note step = resolve_pattern_matched [of "Glob lib" pattern matches, OF assms(1,2),
      folded assms(3)]
  note res = resolved_commands_matched [of "Glob lib" pattern matches, OF assms(1,2),
      folded assms(3)]
  obtain cs a where ps: "resolve_patterns (Glob lib) ps st = (cs, a)"
    by (cases "resolve_patterns (Glob lib) ps st")
  have ctx: "resolve_patterns (Glob lib) (ps @ pattern # qs) st =
      resolve_patterns (Glob lib) qs (cs @ expansions, a)"
    by (simp only: resolve_patterns_append resolve_patterns_Cons ps step)
  have one: "resolve_patterns (Glob lib) [pattern] ([], acc) = (expansions, acc)"
    by (simp add: resolve_patterns_Cons resolve_patterns_Nil step)
  have ex: "readExCommandsLock lib (e\<lparr>ExCommands := [pattern]\<rparr>) acc = (expansions, acc)"
    by (simp add: readExCommandsLock_def one)
  have len: "length expansions = length matches"
    by (simp add: assms(3))
  have exc: "fst (readExCommandsLock lib (e\<lparr>ExCommands := ps @ pattern # qs\<rparr>) acc) =
           fst (readExCommandsLock lib (e\<lparr>ExCommands := ps\<rparr>) acc) @ expansions @
           fst (readExCommandsLock lib (e\<lparr>ExCommands := qs\<rparr>) acc)"
    by (simp add: readExCommandsLock_commands resolved_commands_context [of _ ps pattern qs] res)
  have gr: "fst (snd (Gather_resolve lib (e\<lparr>Commands := ps @ pattern # qs, Command := ''''\<rparr>) acc)) =
           fst (snd (Gather_resolve lib (e\<lparr>Commands := ps, Command := ''''\<rparr>) acc)) @
           expansions @
           fst (snd (Gather_resolve lib (e\<lparr>Commands := qs, Command := ''''\<rparr>) acc))"
    by (simp add: Gather_resolve_static resolved_commands_context [of _ ps pattern qs] res)
  note g = Gather_single_static [OF one, of sched e]
  from ctx ex exc gr g len show ?thesis
    by (simp add: ps)
qed

theorem matched_pattern_expanded_witness:
  "Glob example_lib (takeWhile (\<lambda>c. c \<noteq> CHR '' '') ''/tmp/collect_*.sh --foo=bar -v'') =
     ([''/tmp/collect_a.sh'', ''/tmp/collect_b.sh''], None) \<and>
   [''/tmp/collect_a.sh'', ''/tmp/collect_b.sh''] \<noteq> [] \<and>
   readExCommandsLock example_lib
       (example_plugin\<lparr>ExCommands := [''/tmp/collect_*.sh --foo=bar -v'']\<rparr>) empty_acc =
     ([''/tmp/collect_a.sh --foo=bar -v'', ''/tmp/collect_b.sh --foo=bar -v''], empty_acc) \<and>
   readExCommandsLock example_lib
       (example_plugin\<lparr>ExCommands := [''/tmp/collect_*.sh'']\<rparr>) empty_acc =
     ([''/tmp/collect_a.sh'', ''/tmp/collect_b.sh''], empty_acc) \<and>
   fst (snd (Gather_resolve example_lib
      (example_plugin\<lparr>Commands := [] @ ''/tmp/collect_*.sh --foo=bar -v'' # [],
                       Command := ''''\<rparr>) empty_acc)) =
     [''/tmp/collect_a.sh --foo=bar -v'', ''/tmp/collect_b.sh --foo=bar -v'']"
  using matched_pattern_expanded
      [of example_lib "''/tmp/collect_*.sh --foo=bar -v''"
          "[''/tmp/collect_a.sh'', ''/tmp/collect_b.sh'']"
          "[''/tmp/collect_a.sh --foo=bar -v'', ''/tmp/collect_b.sh --foo=bar -v'']"
          "[]" "[]" "([], empty_acc)" example_plugin empty_acc]
    matched_pattern_expanded
      [of example_lib "''/tmp/collect_*.sh''"
          "[''/tmp/collect_a.sh'', ''/tmp/collect_b.sh'']"
          "[''/tmp/collect_a.sh'', ''/tmp/collect_b.sh'']"
          "[]" "[]" "([], empty_acc)" example_plugin empty_acc]
  by (simp add: example_lib_def example_Glob_def Gather_resolve_def readExCommandsLock_def
      resolve_patterns_def)

text \<open>
  C5 as stated, for the first whitespace-delimited token, fails on a pattern with a tab:
  the token before the tab has two matches, but the code cuts at spaces only, finds no
  match for the whole pattern, and emits the one pattern unexpanded.
\<close>

theorem matched_whitespace_token_counterexample:
  "Glob tab_lib (whitespace_token (''/tmp/collect_?.sh'' @ [TAB] @ ''-v'')) =
     ([''/tmp/collect_a.sh'', ''/tmp/collect_b.sh''], None) \<and>
   readExCommandsLock tab_lib
       (example_plugin\<lparr>ExCommands := [''/tmp/collect_?.sh'' @ [TAB] @ ''-v'']\<rparr>) empty_acc =
     ([''/tmp/collect_?.sh'' @ [TAB] @ ''-v''], empty_acc) \<and>
   fst (snd (Gather_resolve tab_lib
      (example_plugin\<lparr>Commands := [''/tmp/collect_?.sh'' @ [TAB] @ ''-v'']\<rparr>) empty_acc)) =
     [''/tmp/collect_?.sh'' @ [TAB] @ ''-v'']"
  by (simp add: tab_lib_def tab_Glob_def example_lib_def whitespace_token_def is_whitespace_def
      TAB_def NL_def CRET_def readExCommandsLock_def Gather_resolve_def resolve_patterns_def
      resolve_pattern_def SplitN2_def example_plugin_def Let_def)

end
